theory Spec2Isabelle
  imports Complex_Main "HOL-Library.Sublist"
begin

section \<open>The chunker of go\_ai\_translate\<close>

text \<open>
  A Go \<^verbatim>\<open>string\<close> is a sequence of bytes, modelled as \<^typ>\<open>string\<close>; \<^verbatim>\<open>len\<close> counts
  bytes. Go's \<^verbatim>\<open>int\<close> is modelled as \<^typ>\<open>int\<close>. Every sum the chunker computes is bounded by
  the length of the text, so no addition of the function wraps for a text a Go program can
  hold; the model is stated for texts and chunk sizes below \<open>2 ^ 50\<close>, where the product
  \<^verbatim>\<open>effectiveChunkSize * 4\<close> does not wrap either. What the program prints when
  \<^verbatim>\<open>Verbose\<close> is set has no part in what it returns and is left out.
\<close>

abbreviation NL :: char where
  "NL \<equiv> CHR 0x0A"

record config =
  APIKey :: string
  ToLang :: string
  ChunkSize :: int
  Model :: string
  Verbose :: bool
  MaxRetries :: int

subsection \<open>\<^verbatim>\<open>strings.Split\<close> for a non-empty separator\<close>

text \<open>
  \<^verbatim>\<open>strings.Split(s, sep)\<close> cuts \<open>s\<close> at every leftmost, non-overlapping occurrence of
  \<open>sep\<close> and returns the pieces between them, one more than there are occurrences. The
  accumulator \<open>acc\<close> holds the bytes of the piece being read. Every separator of the chunker
  is a non-empty literal; for the empty separator (which Go treats differently) the model
  returns the whole input as one piece.
\<close>

function splitFrom :: "string \<Rightarrow> string \<Rightarrow> string \<Rightarrow> string list" where
  "splitFrom sep acc [] = [acc]"
| "splitFrom sep acc (c # cs) =
     (if sep \<noteq> [] \<and> prefix sep (c # cs)
      then acc # splitFrom sep [] (drop (length sep) (c # cs))
      else splitFrom sep (acc @ [c]) cs)"
  by pat_completeness auto
termination
  by (relation "measure (\<lambda>(sep, acc, s). length s)") auto

definition strings_Split :: "string \<Rightarrow> string \<Rightarrow> string list" where
  "strings_Split s sep = splitFrom sep [] s"

subsection \<open>Token estimate and effective chunk size\<close>

definition estTokens :: "string \<Rightarrow> int" where
  "estTokens s = int (length s) div 4"

text \<open>
  \<^verbatim>\<open>int(float64(t.config.ChunkSize) * 0.8)\<close>: the conversion to \<^verbatim>\<open>int\<close> truncates towards zero. The
  constant \<^verbatim>\<open>0.8\<close> is the double nearest to \<open>4/5\<close>, which is \<open>4/5 * (1 + 2^-54)\<close>; for
  \<open>\<bar>ChunkSize\<bar> < 2 ^ 50\<close> the rounded product lies strictly between the same two integers
  as \<open>4 * ChunkSize / 5\<close> (or is that integer), so the truncation is the integer quotient
  below.
\<close>

definition scaledChunkSize :: "int \<Rightarrow> int" where
  "scaledChunkSize n = (if 0 \<le> n then (4 * n) div 5 else - ((4 * (- n)) div 5))"

definition effectiveChunkSize :: "int \<Rightarrow> int" where
  "effectiveChunkSize n =
     (let effective = scaledChunkSize n
      in if effective < 100 then n else effective)"

subsection \<open>The packing state\<close>

record pack_state =
  chunks :: "string list"
  currentChunk :: string
  currentTokens :: int

definition initState :: pack_state where
  "initState = \<lparr>chunks = [], currentChunk = [], currentTokens = 0\<rparr>"

text \<open>\<^verbatim>\<open>chunks = append(chunks, currentChunk); currentChunk = ""; currentTokens = 0\<close>\<close>

definition flush :: "pack_state \<Rightarrow> pack_state" where
  "flush st = \<lparr>chunks = chunks st @ [currentChunk st], currentChunk = [], currentTokens = 0\<rparr>"

text \<open>\<^verbatim>\<open>chunks = append(chunks, currentChunk); currentChunk = piece; currentTokens = n\<close>\<close>

definition restart :: "pack_state \<Rightarrow> string \<Rightarrow> int \<Rightarrow> pack_state" where
  "restart st piece n =
     \<lparr>chunks = chunks st @ [currentChunk st], currentChunk = piece, currentTokens = n\<rparr>"

text \<open>
  The body of the loop over the lines of an oversized paragraph, and of the else branch
  for a paragraph within the budget. They differ in the joiner (\<open>"\n"\<close> or \<open>"\n\n"\<close>) only:
  the joiner is added when \<^verbatim>\<open>currentTokens > 0\<close>, and counts one token.
\<close>

definition joinStep :: "string \<Rightarrow> int \<Rightarrow> pack_state \<Rightarrow> string \<Rightarrow> pack_state" where
  "joinStep joiner effective st piece =
     (let pieceTokens = estTokens piece
      in if currentTokens st > 0 \<and> currentTokens st + pieceTokens + 1 > effective
         then restart st piece pieceTokens
         else (let st1 = (if currentTokens st > 0
                          then st\<lparr>currentChunk := currentChunk st @ joiner,
                                  currentTokens := currentTokens st + 1\<rparr>
                          else st)
               in st1\<lparr>currentChunk := currentChunk st1 @ piece,
                       currentTokens := currentTokens st1 + pieceTokens\<rparr>))"

definition lineStep :: "int \<Rightarrow> pack_state \<Rightarrow> string \<Rightarrow> pack_state" where
  "lineStep = joinStep [NL]"

definition plainStep :: "int \<Rightarrow> pack_state \<Rightarrow> string \<Rightarrow> pack_state" where
  "plainStep = joinStep [NL, NL]"

text \<open>The body of the loop over sentences: no joiner, and no token for one.\<close>

definition sentenceStep :: "int \<Rightarrow> pack_state \<Rightarrow> string \<Rightarrow> pack_state" where
  "sentenceStep effective st sentence =
     (let sentenceTokens = estTokens sentence
      in if currentTokens st > 0 \<and> currentTokens st + sentenceTokens > effective
         then restart st sentence sentenceTokens
         else st\<lparr>currentChunk := currentChunk st @ sentence,
                 currentTokens := currentTokens st + sentenceTokens\<rparr>)"

subsection \<open>Sentences\<close>

definition sentenceSplitters :: "string list" where
  "sentenceSplitters = [''. '', ''! '', ''? '', ''; '']"

text \<open>
  One round of the loop over the splitters: the state is the rest of the text and the
  sentences found so far. Every part but the last gets the first byte of the splitter
  back; the last part is the text of the next round.
\<close>

definition splitterStep :: "string \<times> string list \<Rightarrow> string \<Rightarrow> string \<times> string list" where
  "splitterStep ts splitter =
     (let parts = strings_Split (fst ts) splitter
      in if length parts > 1
         then (last parts, snd ts @ map (\<lambda>p. p @ take 1 splitter) (butlast parts))
         else ts)"

definition splitSentences :: "string \<Rightarrow> string list" where
  "splitSentences paragraph =
     (let ts = foldl splitterStep (paragraph, []) sentenceSplitters
      in if fst ts \<noteq> [] then snd ts @ [fst ts] else snd ts)"

subsection \<open>Fixed-width slicing\<close>

datatype split_error = SliceBoundsOutOfRange

text \<open>\<^verbatim>\<open>s[i:j]\<close>, which panics unless \<open>0 \<le> i \<le> j \<le> len(s)\<close>.\<close>

definition slice :: "string \<Rightarrow> int \<Rightarrow> int \<Rightarrow> split_error + string" where
  "slice s i j =
     (if 0 \<le> i \<and> i \<le> j \<and> j \<le> int (length s)
      then Inr (take (nat (j - i)) (drop (nat i) s))
      else Inl SliceBoundsOutOfRange)"

text \<open>
  \<^verbatim>\<open>for i := 0; i < len(paragraph); i += step { ... }\<close> with \<open>step = effectiveChunkSize * 4\<close>.
  The loop does not return when \<open>step = 0\<close>: the value \<open>None\<close>. It panics at the first
  slice when \<open>step < 0\<close>.
\<close>

partial_function (option) fixedWidth ::
  "int \<Rightarrow> string \<Rightarrow> int \<Rightarrow> string list \<Rightarrow> (split_error + string list) option" where
  "fixedWidth step paragraph i chs =
     (if i < int (length paragraph)
      then (case slice paragraph i
                   (if i + step > int (length paragraph) then int (length paragraph) else i + step) of
              Inl e \<Rightarrow> Some (Inl e)
            | Inr window \<Rightarrow> fixedWidth step paragraph (i + step) (chs @ [window]))
      else Some (Inr chs))"

subsection \<open>The loop over paragraphs\<close>

text \<open>The first branch of the loop body: a paragraph over the effective budget.\<close>

definition oversizedStep ::
  "int \<Rightarrow> pack_state \<Rightarrow> string \<Rightarrow> (split_error + pack_state) option" where
  "oversizedStep effective st paragraph =
     (let st1 = (if currentChunk st \<noteq> [] then flush st else st);
          lines = strings_Split paragraph [NL]
      in if length lines > 1
         then Some (Inr (foldl (lineStep effective) st1 lines))
         else (let sentences = splitSentences paragraph
               in if length sentences \<le> 1
                  then (case fixedWidth (effective * 4) paragraph 0 (chunks st1) of
                          None \<Rightarrow> None
                        | Some (Inl e) \<Rightarrow> Some (Inl e)
                        | Some (Inr chs) \<Rightarrow> Some (Inr (st1\<lparr>chunks := chs\<rparr>)))
                  else Some (Inr (foldl (sentenceStep effective) st1 sentences))))"

text \<open>The flush at the end of the loop body.\<close>

definition earlyFlush :: "int \<Rightarrow> pack_state \<Rightarrow> pack_state" where
  "earlyFlush effective st = (if currentTokens st \<ge> effective then flush st else st)"

definition paragraphStep ::
  "int \<Rightarrow> pack_state \<Rightarrow> string \<Rightarrow> (split_error + pack_state) option" where
  "paragraphStep effective st paragraph =
     (case (if estTokens paragraph > effective
            then oversizedStep effective st paragraph
            else Some (Inr (plainStep effective st paragraph))) of
        None \<Rightarrow> None
      | Some (Inl e) \<Rightarrow> Some (Inl e)
      | Some (Inr st2) \<Rightarrow> Some (Inr (earlyFlush effective st2)))"

fun packParagraphs ::
  "int \<Rightarrow> pack_state \<Rightarrow> string list \<Rightarrow> (split_error + pack_state) option" where
  "packParagraphs effective st [] = Some (Inr st)"
| "packParagraphs effective st (paragraph # rest) =
     (case paragraphStep effective st paragraph of
        None \<Rightarrow> None
      | Some (Inl e) \<Rightarrow> Some (Inl e)
      | Some (Inr st') \<Rightarrow> packParagraphs effective st' rest)"

text \<open>The trailing flush, and the chunks returned.\<close>

definition finish :: "pack_state \<Rightarrow> string list" where
  "finish st = (if currentChunk st \<noteq> [] then chunks st @ [currentChunk st] else chunks st)"

definition packText :: "int \<Rightarrow> string \<Rightarrow> (split_error + string list) option" where
  "packText effective text =
     (case packParagraphs effective initState (strings_Split text [NL, NL]) of
        None \<Rightarrow> None
      | Some (Inl e) \<Rightarrow> Some (Inl e)
      | Some (Inr st) \<Rightarrow> Some (Inr (finish st)))"

text \<open>
  The result is \<open>Some (Inr chunks)\<close> when the function returns \<open>chunks\<close>, \<open>Some (Inl e)\<close>
  when it panics, and \<open>None\<close> when it does not return.
\<close>

definition splitIntoChunks :: "config \<Rightarrow> string \<Rightarrow> (split_error + string list) option" where
  "splitIntoChunks t text =
     (if text = [] then Some (Inr [])
      else if estTokens text \<le> ChunkSize t then Some (Inr [text])
      else packText (effectiveChunkSize (ChunkSize t)) text)"

section \<open>The reconstruction check of the test suite\<close>










section \<open>The translation client\<close>

subsection \<open>The result tag\<close>

text \<open>
  The leftmost occurrence of \<open>pat\<close> in \<open>s\<close>: the bytes before it and the bytes after it.
\<close>

fun cutAt :: "string \<Rightarrow> string \<Rightarrow> (string \<times> string) option" where
  "cutAt pat [] = (if pat = [] then Some ([], []) else None)"
| "cutAt pat (c # cs) =
     (if prefix pat (c # cs) then Some ([], drop (length pat) (c # cs))
      else (case cutAt pat cs of
              None \<Rightarrow> None
            | Some (before, after) \<Rightarrow> Some (c # before, after)))"

datatype translate_error =
    SendFailed string
  | NilResponse
  | ReadFailed string
  | StatusFailed int string
  | ApiRequestFailed string string string
  | UnmarshalFailed string
  | ApiError string
  | NoTranslation
  | TagNotFound

text \<open>
  \<^verbatim>\<open>regexp.MustCompile(`(?s)<result>(.*?)</result>`).FindStringSubmatch(input)\<close>: the
  match starts at the leftmost \<open><result>\<close> that a \<open></result>\<close> follows, which is the
  leftmost \<open><result>\<close> of the input when there is a match at all; the group is lazy and
  \<open>(?s)\<close> lets the dot match every byte, so the group ends at the first \<open></result>\<close>
  after the opening tag. \<open>matches[1]\<close> is the group.
\<close>

definition extractResultTag :: "string \<Rightarrow> translate_error + string" where
  "extractResultTag input =
     (case cutAt ''<result>'' input of
        None \<Rightarrow> Inl TagNotFound
      | Some (before, rest) \<Rightarrow>
          (case cutAt ''</result>'' rest of
             None \<Rightarrow> Inl TagNotFound
           | Some (body, after) \<Rightarrow> Inr body))"

subsection \<open>Durations\<close>

text \<open>
  A \<^verbatim>\<open>time.Duration\<close> is a count of nanoseconds in an \<^verbatim>\<open>int64\<close>; its products wrap.
\<close>

definition wrap64 :: "int \<Rightarrow> int" where
  "wrap64 x = (x + 2 ^ 63) mod 2 ^ 64 - 2 ^ 63"

abbreviation Millisecond :: int where
  "Millisecond \<equiv> 1000000"

abbreviation Second :: int where
  "Second \<equiv> 1000000000"

subsection \<open>The attempt loop\<close>

text \<open>
  Both retry loops of the program have this text:
  \<^verbatim>\<open>
  for attempt := 0; attempt < maxRetries; attempt++ {
      if attempt > 0 { time.Sleep(retryDelay); retryDelay *= 2 }
      result, err = op()
      if err == nil { break }
  }
  \<close>
  The world \<open>'w\<close> is what the operation and the sleep act on. \<open>lst\<close> holds the variables
  \<open>result\<close> and \<open>err\<close>: \<open>None\<close> before the first attempt, afterwards the outcome of the
  latest attempt.
\<close>

function attemptLoop ::
  "('w \<Rightarrow> ('e + 'a) \<times> 'w) \<Rightarrow> (int \<Rightarrow> 'w \<Rightarrow> 'w) \<Rightarrow> int \<Rightarrow> int \<Rightarrow> int \<Rightarrow> ('e + 'a) option \<Rightarrow> 'w
     \<Rightarrow> ('e + 'a) option \<times> 'w" where
  "attemptLoop op sleep maxRetries attempt retryDelay lst w =
     (if attempt < maxRetries
      then (case op (if attempt > 0 then sleep retryDelay w else w) of
              (Inr v, w') \<Rightarrow> (Some (Inr v), w')
            | (Inl e, w') \<Rightarrow>
                attemptLoop op sleep maxRetries (attempt + 1)
                  (if attempt > 0 then wrap64 (retryDelay * 2) else retryDelay)
                  (Some (Inl e)) w')
      else (lst, w))"
  by pat_completeness auto
termination
  by (relation "measure (\<lambda>(op, sleep, maxRetries, attempt, retryDelay, lst, w).
                           nat (maxRetries - attempt))") auto

definition maxAttempts :: "config \<Rightarrow> int" where
  "maxAttempts t = (if MaxRetries t \<le> 0 then 3 else MaxRetries t)"

subsection \<open>What the program calls\<close>

record Message =
  Role :: string
  Content :: string

record OpenRouterRequest =
  req_Model :: string
  req_Messages :: "Message list"

record http_request =
  Authorization :: string
  payload :: OpenRouterRequest

text \<open>The body is what \<^verbatim>\<open>io.ReadAll(resp.Body)\<close> returns: an error or the bytes.\<close>

record http_response =
  StatusCode :: int
  Body :: "string + string"

record error_body =
  error_Message :: string
  error_Type :: string
  error_Code :: string

text \<open>
  \<^verbatim>\<open>OpenRouterResponse\<close>: the contents of the choices, and the message of the error when
  the response has one.
\<close>

record OpenRouterResponse =
  Choices :: "string list"
  Error :: "string option"

text \<open>
  The operations of the standard library that act on the world or decode JSON are
  parameters of the model: the \<^verbatim>\<open>Do\<close> of the HTTP client, \<^verbatim>\<open>time.Sleep\<close>,
  \<^verbatim>\<open>json.Unmarshal\<close> into the two structs, \<^verbatim>\<open>os.ReadFile\<close>, \<^verbatim>\<open>os.Create\<close> and the
  \<^verbatim>\<open>WriteString\<close> of the buffered writer (\<open>True\<close> when it returns no error).
\<close>

record 'w env =
  client_Do :: "http_request \<Rightarrow> 'w \<Rightarrow> (string + http_response) \<times> 'w"
  time_Sleep :: "int \<Rightarrow> 'w \<Rightarrow> 'w"
  unmarshalError :: "string \<Rightarrow> error_body option"
  unmarshalResponse :: "string \<Rightarrow> string + OpenRouterResponse"
  os_ReadFile :: "string \<Rightarrow> 'w \<Rightarrow> (string + string) \<times> 'w"
  os_Create :: "string \<Rightarrow> 'w \<Rightarrow> string option \<times> 'w"
  WriteString :: "string \<Rightarrow> 'w \<Rightarrow> bool \<times> 'w"

subsection \<open>\<^verbatim>\<open>translateChunk\<close>\<close>

definition buildRequest :: "config \<Rightarrow> string \<Rightarrow> http_request" where
  "buildRequest t text =
     \<lparr>Authorization = ''Bearer '' @ APIKey t,
      payload = \<lparr>req_Model = Model t,
                 req_Messages =
                   [\<lparr>Role = ''user'',
                     Content = ''Translate the following text to '' @ ToLang t
                       @ '' language, but save formatting, the answer place in the tag <result>:''
                       @ [NL, NL] @ text\<rparr>]\<rparr>\<rparr>"

text \<open>The error of a response whose status is not 200.\<close>

definition statusError :: "'w env \<Rightarrow> int \<Rightarrow> string \<Rightarrow> translate_error" where
  "statusError env status body =
     (case unmarshalError env body of
        None \<Rightarrow> StatusFailed status body
      | Some e \<Rightarrow>
          if error_Message e \<noteq> []
          then ApiRequestFailed (error_Message e) (error_Type e) (error_Code e)
          else StatusFailed status body)"

text \<open>The function from \<^verbatim>\<open>io.ReadAll\<close> on, given the response of the send loop.\<close>

definition readResponse :: "'w env \<Rightarrow> http_response \<Rightarrow> translate_error + string" where
  "readResponse env resp =
     (case Body resp of
        Inl e \<Rightarrow> Inl (ReadFailed e)
      | Inr body \<Rightarrow>
          if StatusCode resp \<noteq> 200 then Inl (statusError env (StatusCode resp) body)
          else (case unmarshalResponse env body of
                  Inl e \<Rightarrow> Inl (UnmarshalFailed e)
                | Inr response \<Rightarrow>
                    (case Error response of
                       Some msg \<Rightarrow> Inl (ApiError msg)
                     | None \<Rightarrow>
                         (case Choices response of
                            [] \<Rightarrow> Inl NoTranslation
                          | translation # others \<Rightarrow> extractResultTag translation))))"

text \<open>
  The send loop: the operation is \<^verbatim>\<open>client.Do(req)\<close>, and an attempt fails when \<open>Do\<close>
  returns an error. \<^verbatim>\<open>json.Marshal\<close> of the request struct and \<^verbatim>\<open>http.NewRequest\<close> with the
  constant method and URL do not fail.
\<close>

definition sendRequest ::
  "config \<Rightarrow> 'w env \<Rightarrow> http_request \<Rightarrow> 'w \<Rightarrow> (string + http_response) option \<times> 'w" where
  "sendRequest t env req w =
     attemptLoop (client_Do env req) (time_Sleep env) (maxAttempts t) 0 (2 * Second) None w"

definition translateChunk ::
  "config \<Rightarrow> 'w env \<Rightarrow> string \<Rightarrow> 'w \<Rightarrow> (translate_error + string) \<times> 'w" where
  "translateChunk t env text w =
     (case sendRequest t env (buildRequest t text) w of
        (None, w') \<Rightarrow> (Inl NilResponse, w')
      | (Some (Inl err), w') \<Rightarrow> (Inl (SendFailed err), w')
      | (Some (Inr resp), w') \<Rightarrow> (readResponse env resp, w'))"

section \<open>The pipeline\<close>

datatype pipeline_error =
    ReadInputFailed string
  | SplitPanicked split_error
  | CreateOutputFailed string
  | ChunkFailed int int translate_error
  | WriteFailed

text \<open>
  The retry loop around one chunk, lines 62 to 90 of \<^verbatim>\<open>TranslateFile\<close>; \<open>op\<close> is
  \<^verbatim>\<open>t.translateChunk(chunk)\<close> and \<open>i\<close> the index of the chunk. When the loop has made no
  attempt, \<open>translatedChunk\<close> is the empty string and \<open>chunkErr\<close> is nil.
\<close>

definition translateWithRetry ::
  "config \<Rightarrow> ('w \<Rightarrow> (translate_error + string) \<times> 'w) \<Rightarrow> (int \<Rightarrow> 'w \<Rightarrow> 'w) \<Rightarrow> int \<Rightarrow> 'w
     \<Rightarrow> (pipeline_error + string) \<times> 'w" where
  "translateWithRetry t op sleep i w =
     (case attemptLoop op sleep (maxAttempts t) 0 (2 * Second) None w of
        (None, w') \<Rightarrow> (Inr [], w')
      | (Some (Inl chunkErr), w') \<Rightarrow> (Inl (ChunkFailed (i + 1) (maxAttempts t) chunkErr), w')
      | (Some (Inr translatedChunk), w') \<Rightarrow> (Inr translatedChunk, w'))"

text \<open>The pacing delay after a chunk that is not the last, lines 103 to 111.\<close>

definition pacingDelay :: "string \<Rightarrow> int" where
  "pacingDelay chunk =
     (let delay = 10 * Millisecond
      in if int (length chunk) > 1000
         then (let additionalDelay = wrap64 (int (length chunk) div 1000 * 300 * Millisecond)
               in delay + (if additionalDelay > 1500 * Millisecond
                           then 1500 * Millisecond else additionalDelay))
         else delay)"

text \<open>
  The loop over the chunks, lines 56 to 118: \<open>n\<close> is \<^verbatim>\<open>len(chunks)\<close> and \<open>i\<close> the index
  of the first chunk of the list. \<^verbatim>\<open>strings.HasSuffix(s, "\n")\<close> is \<open>suffix [NL] s\<close>. The
  errors of the second \<open>WriteString\<close> and of \<open>Flush\<close> are dropped by the program.
\<close>

fun translateChunks ::
  "config \<Rightarrow> 'w env \<Rightarrow> int \<Rightarrow> int \<Rightarrow> string list \<Rightarrow> 'w \<Rightarrow> (pipeline_error + unit) \<times> 'w" where
  "translateChunks t env n i [] w = (Inr (), w)"
| "translateChunks t env n i (chunk # rest) w =
     (case translateWithRetry t (translateChunk t env chunk) (time_Sleep env) i w of
        (Inl e, w1) \<Rightarrow> (Inl e, w1)
      | (Inr translatedChunk, w1) \<Rightarrow>
          (case WriteString env translatedChunk w1 of
             (False, w2) \<Rightarrow> (Inl WriteFailed, w2)
           | (True, w2) \<Rightarrow>
               (let w3 = (if i < n - 1 \<and> \<not> suffix [NL] translatedChunk
                          then snd (WriteString env [NL] w2) else w2);
                    w4 = (if i < n - 1 then time_Sleep env (pacingDelay chunk) w3 else w3)
                in translateChunks t env n (i + 1) rest w4)))"

text \<open>
  The whole function: \<open>None\<close> when it does not return, and the error \<open>SplitPanicked\<close>
  when the chunker panics, which ends the program before the output file is created.
\<close>

definition TranslateFile ::
  "config \<Rightarrow> 'w env \<Rightarrow> string \<Rightarrow> string \<Rightarrow> 'w \<Rightarrow> ((pipeline_error + unit) \<times> 'w) option" where
  "TranslateFile t env inputPath outputPath w =
     (case os_ReadFile env inputPath w of
        (Inl e, w1) \<Rightarrow> Some (Inl (ReadInputFailed e), w1)
      | (Inr content, w1) \<Rightarrow>
          (case splitIntoChunks t content of
             None \<Rightarrow> None
           | Some (Inl p) \<Rightarrow> Some (Inl (SplitPanicked p), w1)
           | Some (Inr cs) \<Rightarrow>
               (case os_Create env outputPath w1 of
                  (Some e, w2) \<Rightarrow> Some (Inl (CreateOutputFailed e), w2)
                | (None, w2) \<Rightarrow>
                    Some (translateChunks t env (int (length cs)) 0 cs w2))))"

section \<open>Invariants and example inputs\<close>

text \<open>
  The invariant of the packing loops: no chunk appended so far is empty, the token count
  is not negative, and a positive token count means a non-empty buffer.
\<close>

definition packInv :: "pack_state \<Rightarrow> bool" where
  "packInv st =
     ([] \<notin> set (chunks st) \<and> 0 \<le> currentTokens st \<and> (0 < currentTokens st \<longrightarrow> currentChunk st \<noteq> []))"

text \<open>The configuration and the third input of \<^verbatim>\<open>TestSplitIntoChunks\<close>.\<close>

definition testConfig :: config where
  "testConfig = \<lparr>APIKey = [], ToLang = [], ChunkSize = 50, Model = [], Verbose = False, MaxRetries = 0\<rparr>"

definition multipleParagraphs :: string where
  "multipleParagraphs = ''Paragraph 1.'' @ [NL, NL] @ ''Paragraph 2.'' @ [NL, NL] @ ''Paragraph 3.'' @ [NL, NL] @ ''Paragraph 4.''"

text \<open>A text of 504 bytes without any boundary marker, and a configuration it exceeds.\<close>

definition longWord :: string where
  "longWord = replicate 504 CHR ''a''"

definition config125 :: config where
  "config125 = testConfig\<lparr>ChunkSize := 125\<rparr>"

text \<open>The smallest positive chunk size, and a word of eight bytes.\<close>

definition config1 :: config where
  "config1 = testConfig\<lparr>ChunkSize := 1\<rparr>"

definition eightBytes :: string where
  "eightBytes = ''aaaaaaaa''"

text \<open>The chunk size zero.\<close>

definition config0 :: config where
  "config0 = testConfig\<lparr>ChunkSize := 0\<rparr>"

text \<open>
  A tag pair in a response: the input is \<open>pre\<close>, the opening tag, \<open>body\<close>, the closing
  tag and \<open>post\<close>.
\<close>

definition tagPair :: "string \<Rightarrow> string \<Rightarrow> string \<Rightarrow> string \<Rightarrow> bool" where
  "tagPair input pre body post = (input = pre @ ''<result>'' @ body @ ''</result>'' @ post)"

text \<open>
  Counting invocations: \<open>logged op\<close> is the operation \<open>op\<close> on a world that also holds the
  list of the results \<open>op\<close> has returned so far, in the order of the calls. The other
  operations keep the list as it is.
\<close>

definition logged :: "('w \<Rightarrow> 'r \<times> 'w) \<Rightarrow> 'r list \<times> 'w \<Rightarrow> 'r \<times> ('r list \<times> 'w)" where
  "logged op lw = (case op (snd lw) of (r, w') \<Rightarrow> (r, (fst lw @ [r], w')))"

definition keepLog :: "('w \<Rightarrow> 'w) \<Rightarrow> 'r list \<times> 'w \<Rightarrow> 'r list \<times> 'w" where
  "keepLog f lw = (fst lw, f (snd lw))"

definition lifted :: "('w \<Rightarrow> 'r \<times> 'w) \<Rightarrow> 'l \<times> 'w \<Rightarrow> 'r \<times> ('l \<times> 'w)" where
  "lifted f lw = (case f (snd lw) of (r, w') \<Rightarrow> (r, (fst lw, w')))"

text \<open>The environment \<open>env\<close> with the results of \<^verbatim>\<open>client.Do\<close> logged.\<close>

definition loggedEnv :: "'w env \<Rightarrow> ((string + http_response) list \<times> 'w) env" where
  "loggedEnv env =
     \<lparr>client_Do = (\<lambda>req. logged (client_Do env req)),
      time_Sleep = (\<lambda>d. keepLog (time_Sleep env d)),
      unmarshalError = unmarshalError env,
      unmarshalResponse = unmarshalResponse env,
      os_ReadFile = (\<lambda>path. lifted (os_ReadFile env path)),
      os_Create = (\<lambda>path. lifted (os_Create env path)),
      WriteString = (\<lambda>s. lifted (WriteString env s))\<rparr>"

text \<open>
  A world that records what the program does to it: the number of requests sent, the
  durations slept and the strings written. In \<open>stubEnv respond\<close> the \<open>n\<close>-th request gets
  the answer \<open>respond n\<close>, and the body of a response decodes to one choice with the body
  as its content.
\<close>

record test_world =
  sends :: nat
  slept :: "int list"
  written :: "string list"

definition world0 :: test_world where
  "world0 = \<lparr>sends = 0, slept = [], written = []\<rparr>"

definition stubEnv :: "(nat \<Rightarrow> string + http_response) \<Rightarrow> test_world env" where
  "stubEnv respond =
     \<lparr>client_Do = (\<lambda>req w. (respond (sends w), w\<lparr>sends := sends w + 1\<rparr>)),
      time_Sleep = (\<lambda>d w. w\<lparr>slept := slept w @ [d]\<rparr>),
      unmarshalError = (\<lambda>body. None),
      unmarshalResponse = (\<lambda>body. Inr \<lparr>Choices = [body], Error = None\<rparr>),
      os_ReadFile = (\<lambda>path w. (Inr [], w)),
      os_Create = (\<lambda>path w. (None, w)),
      WriteString = (\<lambda>s w. (True, w\<lparr>written := written w @ [s]\<rparr>))\<rparr>"

text \<open>Stub operations on a counter: two failures before a success, and failures only.\<close>

definition failTwice :: "nat \<Rightarrow> (translate_error + string) \<times> nat" where
  "failTwice n = (if n < 2 then Inl (ApiError ''busy'') else Inr ''ok'', n + 1)"

definition alwaysFail :: "nat \<Rightarrow> (translate_error + string) \<times> nat" where
  "alwaysFail n = (Inl (StatusFailed 500 (replicate n CHR ''x'')), n + 1)"

text \<open>Stub services: status 503, a content without the tag pair, an empty and a full result.\<close>

definition config3 :: config where
  "config3 = testConfig\<lparr>MaxRetries := 3\<rparr>"

definition busyService :: "nat \<Rightarrow> string + http_response" where
  "busyService n = Inr \<lparr>StatusCode = 503, Body = Inr ''overloaded''\<rparr>"

definition untagged :: "nat \<Rightarrow> string + http_response" where
  "untagged n = Inr \<lparr>StatusCode = 200, Body = Inr ''Bonjour <result> le monde''\<rparr>"










section \<open>The chunker: properties\<close>

text \<open>The definitions that evaluate the chunker on a given text.\<close>

lemmas pack_defs =
  splitIntoChunks_def estTokens_def effectiveChunkSize_def scaledChunkSize_def packText_def
  strings_Split_def paragraphStep_def oversizedStep_def initState_def splitSentences_def
  sentenceSplitters_def splitterStep_def fixedWidth.simps slice_def earlyFlush_def finish_def
  plainStep_def lineStep_def joinStep_def sentenceStep_def flush_def restart_def

subsection \<open>Small texts\<close>

text \<open>
  C2. A non-empty text whose estimate \<open>len(text) / 4\<close> is at most the configured chunk
  size is returned as the only chunk, whatever paragraphs it has.
\<close>

theorem splitIntoChunks_single_chunk:
  "text \<noteq> [] \<Longrightarrow> int (length text) div 4 \<le> ChunkSize t \<Longrightarrow>
   splitIntoChunks t text = Some (Inr [text])"
  by (simp add: splitIntoChunks_def estTokens_def)

text \<open>
  The test input of four paragraphs (51 bytes, 12 tokens) with the chunk size 50 of the
  test.
\<close>

theorem splitIntoChunks_single_chunk_witness:
  "multipleParagraphs \<noteq> [] \<and> int (length multipleParagraphs) div 4 \<le> ChunkSize testConfig \<and>
   length (strings_Split multipleParagraphs [NL, NL]) = 4 \<and>
   splitIntoChunks testConfig multipleParagraphs = Some (Inr [multipleParagraphs])"
  using splitIntoChunks_single_chunk [of multipleParagraphs testConfig]
  by (simp add: multipleParagraphs_def testConfig_def strings_Split_def)

subsection \<open>The effective budget\<close>

lemma scaledChunkSize_truncates:
  "scaledChunkSize n =
     (if 0 \<le> real_of_int n * 0.8 then \<lfloor>real_of_int n * 0.8\<rfloor> else \<lceil>real_of_int n * 0.8\<rceil>)"
proof -
  have eq: "real_of_int n * 0.8 = real_of_int (4 * n) / real_of_int 5" by simp
  have eq': "real_of_int n * 0.8 = - (real_of_int (4 * (- n)) / real_of_int 5)" by simp
  show ?thesis
  proof (cases "0 \<le> n")
    case True
    then have "0 \<le> real_of_int n * 0.8" by simp
    moreover have "\<lfloor>real_of_int n * 0.8\<rfloor> = (4 * n) div 5"
      unfolding eq by (rule floor_divide_of_int_eq)
    ultimately show ?thesis using True by (simp add: scaledChunkSize_def)
  next
    case False
    then have "\<not> 0 \<le> real_of_int n * 0.8" by simp
    moreover have "\<lceil>real_of_int n * 0.8\<rceil> = - ((4 * (- n)) div 5)"
      unfolding eq' ceiling_minus floor_divide_of_int_eq by simp
    ultimately show ?thesis using False by (simp add: scaledChunkSize_def)
  qed
qed

lemma effectiveChunkSize_truncates:
  "effectiveChunkSize n =
     (let product = real_of_int n * 0.8;
          truncated = (if 0 \<le> product then \<lfloor>product\<rfloor> else \<lceil>product\<rceil>)
      in if product < 100 then n else truncated)"
proof -
  let ?p = "real_of_int n * 0.8"
  let ?tr = "if 0 \<le> ?p then \<lfloor>?p\<rfloor> else \<lceil>?p\<rceil>"
  have tr: "scaledChunkSize n = ?tr" by (rule scaledChunkSize_truncates)
  have "(?tr < 100) = (?p < 100)"
    by (auto simp: floor_less_iff ceiling_less_iff)
  then have "(scaledChunkSize n < 100) = (?p < 100)"
    by (simp only: tr)
  then have "effectiveChunkSize n = (if ?p < 100 then n else ?tr)"
    unfolding effectiveChunkSize_def Let_def by (simp only: tr)
  then show ?thesis unfolding Let_def .
qed

text \<open>
  C7. When the text is split (its estimate exceeds the chunk size), the paragraphs are
  packed with the budget \<open>ChunkSize \<times> 0.8\<close> truncated to an integer, and with the chunk
  size itself when that product is below 100.
\<close>

theorem splitIntoChunks_effective_budget:
  "text \<noteq> [] \<Longrightarrow> int (length text) div 4 > ChunkSize t \<Longrightarrow>
   splitIntoChunks t text =
     packText (let product = real_of_int (ChunkSize t) * 0.8;
                   truncated = (if 0 \<le> product then \<lfloor>product\<rfloor> else \<lceil>product\<rceil>)
               in if product < 100 then ChunkSize t else truncated) text"
proof -
  assume a: "text \<noteq> []" "int (length text) div 4 > ChunkSize t"
  then have "splitIntoChunks t text = packText (effectiveChunkSize (ChunkSize t)) text"
    by (simp add: splitIntoChunks_def estTokens_def)
  then show ?thesis by (simp only: effectiveChunkSize_truncates)
qed

text \<open>504 bytes are 126 tokens, over the chunk size 125, whose effective budget is 100.\<close>

theorem splitIntoChunks_effective_budget_witness:
  "longWord \<noteq> [] \<and> int (length longWord) div 4 > ChunkSize config125 \<and>
   splitIntoChunks config125 longWord = packText 100 longWord"
  using splitIntoChunks_effective_budget [of longWord config125]
  by (simp add: longWord_def config125_def testConfig_def)

subsection \<open>Termination and non-empty chunks\<close>

lemma slice_window:
  "0 \<le> i \<Longrightarrow> i < int (length p) \<Longrightarrow> 0 < step \<Longrightarrow>
   slice p i (if i + step > int (length p) then int (length p) else i + step)
     = Inr (take (nat step) (drop (nat i) p))"
proof -
  assume a: "0 \<le> i" "i < int (length p)" "0 < step"
  have n: "nat (i + step) - nat i = nat step" using a by (simp add: nat_add_distrib)
  have "min (length p - nat i) (nat step) = length p - nat i" if "i + step > int (length p)"
    using that a by auto
  then show ?thesis using a n by (auto simp: slice_def nat_diff_distrib)
qed

lemma fixedWidth_returns:
  "0 < step \<Longrightarrow> 0 \<le> i \<Longrightarrow>
   \<exists>ws. fixedWidth step p i chs = Some (Inr (chs @ ws)) \<and> [] \<notin> set ws \<and> concat ws = drop (nat i) p"
proof (induction "nat (int (length p) - i)" arbitrary: i chs rule: less_induct)
  case less
  show ?case
  proof (cases "i < int (length p)")
    case False
    then have "fixedWidth step p i chs = Some (Inr chs)"
      by (subst fixedWidth.simps) simp
    moreover from False less.prems have "drop (nat i) p = []" by simp
    ultimately show ?thesis by simp
  next
    case True
    let ?w = "take (nat step) (drop (nat i) p)"
    have sl: "slice p i (if i + step > int (length p) then int (length p) else i + step) = Inr ?w"
      using less.prems True by (intro slice_window) auto
    have unfold: "fixedWidth step p i chs = fixedWidth step p (i + step) (chs @ [?w])"
      using True by (subst fixedWidth.simps) (simp only: sl if_True sum.case)
    have "nat (int (length p) - (i + step)) < nat (int (length p) - i)"
      using True less.prems by auto
    moreover have "0 \<le> i + step" using less.prems by simp
    ultimately obtain ws where ws:
      "fixedWidth step p (i + step) (chs @ [?w]) = Some (Inr ((chs @ [?w]) @ ws))"
      "[] \<notin> set ws" "concat ws = drop (nat (i + step)) p"
      using less.hyps [of "i + step" "chs @ [?w]"] less.prems(1) by blast
    have ne: "?w \<noteq> []" using True less.prems by auto
    have "nat (i + step) = nat i + nat step" using less.prems by (simp add: nat_add_distrib)
    then have "concat ws = drop (nat step) (drop (nat i) p)"
      using ws(3) by (simp add: add.commute)
    then have "concat (?w # ws) = drop (nat i) p"
      by (simp only: concat.simps append_take_drop_id)
    then show ?thesis using unfold ws(1,2) ne
      by (intro exI [of _ "?w # ws"]) simp
  qed
qed

lemma estTokens_nonneg: "0 \<le> estTokens s"
  by (simp add: estTokens_def)

lemma estTokens_pos: "0 < estTokens s \<Longrightarrow> s \<noteq> []"
  by (auto simp: estTokens_def)

lemma packInv_joinStep: "packInv st \<Longrightarrow> packInv (joinStep joiner eff st piece)"
  using estTokens_nonneg [of piece] estTokens_pos [of piece]
  by (auto simp: packInv_def joinStep_def restart_def Let_def)

lemma packInv_sentenceStep: "packInv st \<Longrightarrow> packInv (sentenceStep eff st piece)"
  using estTokens_nonneg [of piece] estTokens_pos [of piece]
  by (auto simp: packInv_def sentenceStep_def restart_def Let_def)

lemma packInv_foldl: "(\<And>st x. P st \<Longrightarrow> P (f st x)) \<Longrightarrow> P st \<Longrightarrow> P (foldl f st xs)"
  by (induction xs arbitrary: st) auto

lemma packInv_preflush: "packInv st \<Longrightarrow> packInv (if currentChunk st \<noteq> [] then flush st else st)"
  by (auto simp: packInv_def flush_def)

lemma preflush_empty:
  "packInv st \<Longrightarrow> currentChunk (if currentChunk st \<noteq> [] then flush st else st) = [] \<and>
   currentTokens (if currentChunk st \<noteq> [] then flush st else st) = 0"
  by (auto simp: packInv_def flush_def)

lemma packInv_earlyFlush: "1 \<le> eff \<Longrightarrow> packInv st \<Longrightarrow> packInv (earlyFlush eff st)"
  by (auto simp: packInv_def earlyFlush_def flush_def)

lemma oversizedStep_returns:
  assumes "1 \<le> eff" "packInv st"
  shows "\<exists>st'. oversizedStep eff st paragraph = Some (Inr st') \<and> packInv st'"
proof -
  let ?st1 = "if currentChunk st \<noteq> [] then flush st else st"
  have i1: "packInv ?st1" using assms(2) by (rule packInv_preflush)
  have e1: "currentChunk ?st1 = []" "currentTokens ?st1 = 0"
    using preflush_empty [OF assms(2)] by auto
  obtain ws where ws: "fixedWidth (eff * 4) paragraph 0 (chunks ?st1) = Some (Inr (chunks ?st1 @ ws))"
    "[] \<notin> set ws"
    using fixedWidth_returns [of "eff * 4" 0 "paragraph" "chunks ?st1"] assms(1) by auto
  have i2: "packInv (?st1\<lparr>chunks := chunks ?st1 @ ws\<rparr>)"
    using i1 ws(2) e1 by (simp add: packInv_def)
  have i3: "packInv (foldl (lineStep eff) ?st1 xs)" for xs
    unfolding lineStep_def using i1 by (intro packInv_foldl [where P=packInv]) (auto intro: packInv_joinStep)
  have i4: "packInv (foldl (sentenceStep eff) ?st1 xs)" for xs
    using i1 by (intro packInv_foldl [where P=packInv]) (auto intro: packInv_sentenceStep)
  show ?thesis
    unfolding oversizedStep_def Let_def
    using i2 i3 i4 ws(1) by (simp only: split: if_split) auto
qed

lemma paragraphStep_returns:
  assumes "1 \<le> eff" "packInv st"
  shows "\<exists>st'. paragraphStep eff st paragraph = Some (Inr st') \<and> packInv st'"
proof (cases "estTokens paragraph > eff")
  case True
  then show ?thesis
    using oversizedStep_returns [OF assms, of "paragraph"] packInv_earlyFlush [OF assms(1)]
    by (auto simp: paragraphStep_def)
next
  case False
  then show ?thesis
    using packInv_joinStep [OF assms(2)] packInv_earlyFlush [OF assms(1)]
    by (auto simp: paragraphStep_def plainStep_def)
qed

lemma packParagraphs_returns:
  "1 \<le> eff \<Longrightarrow> packInv st \<Longrightarrow> \<exists>st'. packParagraphs eff st ps = Some (Inr st') \<and> packInv st'"
proof (induction ps arbitrary: st)
  case Nil
  then show ?case by simp
next
  case (Cons p ps)
  from paragraphStep_returns [OF Cons.prems, of p]
  obtain st1 where "paragraphStep eff st p = Some (Inr st1)" "packInv st1" by blast
  then show ?case using Cons.IH [OF Cons.prems(1), of st1] by simp
qed

lemma packInv_initState: "packInv initState"
  by (simp add: packInv_def initState_def)

lemma finish_nonempty: "packInv st \<Longrightarrow> [] \<notin> set (finish st)"
  by (auto simp: packInv_def finish_def)

lemma packText_returns:
  "1 \<le> eff \<Longrightarrow> \<exists>cs. packText eff text = Some (Inr cs) \<and> [] \<notin> set cs"
  using packParagraphs_returns [OF _ packInv_initState, of eff "strings_Split text [NL, NL]"]
  by (auto simp: packText_def finish_nonempty)

lemma effectiveChunkSize_pos: "1 \<le> n \<Longrightarrow> 1 \<le> effectiveChunkSize n"
  by (auto simp: effectiveChunkSize_def Let_def)

text \<open>
  C3. With a chunk size of at least one the function returns a list of chunks for every
  text: it does not panic, and the fixed-width loop, whose step is then at least four
  bytes, comes to its end.
\<close>

theorem splitIntoChunks_terminates:
  "1 \<le> ChunkSize t \<Longrightarrow> \<exists>cs. splitIntoChunks t text = Some (Inr cs)"
  using packText_returns [OF effectiveChunkSize_pos, of "ChunkSize t" "text"]
  by (auto simp: splitIntoChunks_def)

text \<open>The word of eight bytes has no boundary marker and is cut into two windows.\<close>

theorem splitIntoChunks_terminates_witness:
  "1 \<le> ChunkSize config1 \<and> (\<exists>cs. splitIntoChunks config1 eightBytes = Some (Inr cs)) \<and>
   splitIntoChunks config1 eightBytes = Some (Inr [''aaaa'', ''aaaa''])"
  using splitIntoChunks_terminates [of config1 eightBytes]
  by (simp add: config1_def testConfig_def eightBytes_def pack_defs)

text \<open>
  The bound on the chunk size is needed: with the step zero the fixed-width loop does not
  return, and with a negative step its first slice panics.
\<close>

lemma fixedWidth_zero_step:
  assumes "fixedWidth step p i chs = Some r"
  shows "\<not> (step = 0 \<and> 0 \<le> i \<and> i < int (length p))"
proof (rule fixedWidth.raw_induct
    [where P = "\<lambda>step p i chs r. \<not> (step = 0 \<and> 0 \<le> i \<and> i < int (length p))", OF _ assms])
  fix fw :: "int \<Rightarrow> string \<Rightarrow> int \<Rightarrow> string list \<Rightarrow> (split_error + string list) option"
  fix step p i chs r
  assume IH: "\<And>step p i chs r. fw step p i chs = Some r \<Longrightarrow>
                \<not> (step = 0 \<and> 0 \<le> i \<and> i < int (length p))"
    and body: "(if i < int (length p)
                then case slice p i (if int (length p) < i + step then int (length p) else i + step) of
                       Inl e \<Rightarrow> Some (Inl e)
                     | Inr window \<Rightarrow> fw step p (i + step) (chs @ [window])
                else Some (Inr chs)) = Some r"
  show "\<not> (step = 0 \<and> 0 \<le> i \<and> i < int (length p))"
  proof
    assume b: "step = 0 \<and> 0 \<le> i \<and> i < int (length p)"
    then have "slice p i (if int (length p) < i + step then int (length p) else i + step) = Inr []"
      by (simp add: slice_def)
    with body b have "fw step p (i + step) (chs @ [[]]) = Some r" by simp
    from IH [OF this] b show False by simp
  qed
qed

lemma splitIntoChunks_zero_budget: "splitIntoChunks config0 ''aaaa'' = None"
proof -
  have "fixedWidth 0 ''aaaa'' 0 [] = None"
    using fixedWidth_zero_step [of 0 "''aaaa''" 0 "[]"] by (cases "fixedWidth 0 ''aaaa'' 0 []") auto
  then show ?thesis
    by (simp add: config0_def testConfig_def splitIntoChunks_def estTokens_def
        effectiveChunkSize_def scaledChunkSize_def packText_def strings_Split_def
        paragraphStep_def oversizedStep_def initState_def splitSentences_def
        sentenceSplitters_def splitterStep_def)
qed

lemma splitIntoChunks_negative_budget:
  "splitIntoChunks (testConfig\<lparr>ChunkSize := - 1\<rparr>) ''aaaa'' = Some (Inl SliceBoundsOutOfRange)"
  by (simp add: testConfig_def pack_defs)

text \<open>
  C9. With a chunk size of at least one no chunk of the result is the empty string.
\<close>

theorem splitIntoChunks_no_empty_chunk:
  "1 \<le> ChunkSize t \<Longrightarrow> splitIntoChunks t text = Some (Inr cs) \<Longrightarrow> [] \<notin> set cs"
  using packText_returns [OF effectiveChunkSize_pos, of "ChunkSize t" "text"]
  by (auto simp: splitIntoChunks_def split: if_splits)

theorem splitIntoChunks_no_empty_chunk_witness:
  "1 \<le> ChunkSize config1 \<and> splitIntoChunks config1 eightBytes = Some (Inr [''aaaa'', ''aaaa'']) \<and>
   [] \<notin> set [''aaaa'', ''aaaa'']"
proof -
  have h: "1 \<le> ChunkSize config1"
    by (simp add: config1_def testConfig_def)
  have r: "splitIntoChunks config1 eightBytes = Some (Inr [''aaaa'', ''aaaa''])"
    by (simp add: config1_def testConfig_def eightBytes_def pack_defs)
  from splitIntoChunks_no_empty_chunk [OF h r] h r show ?thesis by simp
qed

subsection \<open>Reconstruction\<close>




























text \<open>
  Two more ways to lose white space: a piece of less than four bytes counts no token, so
  the next piece is appended to it without a joiner; and the sentences of one chunk are
  appended without the space that followed the full stop.
\<close>

lemma short_paragraphs_glued:
  "splitIntoChunks config1 (''Hi'' @ [NL, NL] @ ''there'') = Some (Inr [''Hithere''])"
  by (simp add: config1_def testConfig_def pack_defs)

lemma sentences_glued:
  "splitIntoChunks (testConfig\<lparr>ChunkSize := 2\<rparr>) ''One. Two. Three'' = Some (Inr [''One.Two.'', ''Three''])"
  by (simp add: testConfig_def pack_defs)




section \<open>The retry loops: properties\<close>

text \<open>
  What the attempt loop does to the log of a logged operation, from any attempt on: it
  adds at least one result; all the results it adds but the last are failures; the loop
  returns the last; and when the last is a failure too, the loop has used up its
  attempts.
\<close>

lemma attemptLoop_logged:
  "attemptLoop (logged op) (\<lambda>d. keepLog (sleep d)) m a d lst (tr, w) = (res, (tr', w')) \<Longrightarrow> a < m \<Longrightarrow>
   \<exists>new. tr' = tr @ new \<and> new \<noteq> [] \<and> res = Some (last new) \<and> (\<forall>r\<in>set (butlast new). isl r) \<and>
         int (length new) \<le> m - a \<and> (isl (last new) \<longrightarrow> int (length new) = m - a)"
proof (induction "nat (m - a)" arbitrary: a d lst tr w)
  case 0
  then show ?case by simp
next
  case (Suc k)
  let ?w1 = "if a > 0 then sleep d w else w"
  obtain r w2 where op: "op ?w1 = (r, w2)" by (cases "op ?w1")
  have lg: "logged op (if a > 0 then keepLog (sleep d) (tr, w) else (tr, w)) = (r, (tr @ [r], w2))"
    using op by (cases "a > 0") (simp_all add: logged_def keepLog_def)
  show ?case
  proof (cases r)
    case (Inr v)
    with Suc.prems lg have "res = Some (Inr v)" "tr' = tr @ [r]"
      by (simp_all add: attemptLoop.simps [of _ _ m a])
    with Inr Suc.prems(2) show ?thesis by (intro exI [of _ "[r]"]) simp
  next
    case (Inl e)
    let ?d = "if a > 0 then wrap64 (d * 2) else d"
    from Suc.prems lg Inl have rec:
      "attemptLoop (logged op) (\<lambda>d. keepLog (sleep d)) m (a + 1) ?d (Some (Inl e)) (tr @ [r], w2) = (res, (tr', w'))"
      by (simp add: attemptLoop.simps [of _ _ m a])
    show ?thesis
    proof (cases "a + 1 < m")
      case False
      with rec have "res = Some (Inl e)" "tr' = tr @ [r]"
        by (simp_all add: attemptLoop.simps [of _ _ m "a + 1"])
      with Inl False Suc.prems(2) show ?thesis by (intro exI [of _ "[r]"]) auto
    next
      case True
      from Suc.hyps(2) have "k = nat (m - (a + 1))" by simp
      from Suc.hyps(1) [OF this rec True] obtain new where new:
        "tr' = (tr @ [r]) @ new" "new \<noteq> []" "res = Some (last new)" "\<forall>r\<in>set (butlast new). isl r"
        "int (length new) \<le> m - (a + 1)" "isl (last new) \<longrightarrow> int (length new) = m - (a + 1)"
        by blast
      then show ?thesis using Inl
        by (intro exI [of _ "r # new"]) (auto simp: butlast_append)
    qed
  qed
qed

lemma maxAttempts_pos: "0 < maxAttempts t"
  by (simp add: maxAttempts_def)

text \<open>
  C4. The retry loop around one chunk. The ceiling of attempts is three when the
  configured \<open>MaxRetries\<close> is not positive. With the results of the operation logged in
  the order of its invocations: every invocation before the last failed; when the last
  failed as well, the operation was invoked exactly \<open>maxAttempts\<close> times and the error
  returned carries the error of that last attempt (with the number of the chunk and the
  ceiling, as the format string of line 88 has it); when the last succeeded, its value is
  returned, and no invocation follows it.
\<close>

theorem translateWithRetry_attempts:
  assumes "translateWithRetry t (logged op) (\<lambda>d. keepLog (sleep d)) i ([], w) = (res, (tr, w'))"
  shows "maxAttempts t = (if MaxRetries t \<le> 0 then 3 else MaxRetries t) \<and>
         tr \<noteq> [] \<and> (\<forall>r\<in>set (butlast tr). isl r) \<and>
         (case last tr of
            Inl e \<Rightarrow> int (length tr) = maxAttempts t \<and> res = Inl (ChunkFailed (i + 1) (maxAttempts t) e)
          | Inr s \<Rightarrow> int (length tr) \<le> maxAttempts t \<and> res = Inr s)"
proof -
  obtain r lw where al:
    "attemptLoop (logged op) (\<lambda>d. keepLog (sleep d)) (maxAttempts t) 0 (2 * Second) None ([], w) = (r, lw)"
    by (cases "attemptLoop (logged op) (\<lambda>d. keepLog (sleep d)) (maxAttempts t) 0 (2 * Second) None ([], w)")
  have lw: "lw = (tr, w')" using assms al
    by (auto simp: translateWithRetry_def split: option.splits sum.splits)
  from attemptLoop_logged [OF al [unfolded lw] maxAttempts_pos] obtain new where new:
    "tr = [] @ new" "new \<noteq> []" "r = Some (last new)" "\<forall>r\<in>set (butlast new). isl r"
    "int (length new) \<le> maxAttempts t - 0" "isl (last new) \<longrightarrow> int (length new) = maxAttempts t - 0"
    by blast
  have "res = (case last tr of Inl e \<Rightarrow> Inl (ChunkFailed (i + 1) (maxAttempts t) e) | Inr s \<Rightarrow> Inr s)"
    using assms al new(1,3) by (auto simp: translateWithRetry_def split: sum.splits)
  then show ?thesis using new by (auto simp: maxAttempts_def split: sum.splits)
qed

text \<open>
  The default ceiling with a stub that fails twice and then succeeds, and with a stub
  that always fails: three invocations each.
\<close>

lemma failTwice_run:
  "translateWithRetry testConfig (logged failTwice) (\<lambda>d. keepLog id) 0 ([], 0)
     = (Inr ''ok'', ([Inl (ApiError ''busy''), Inl (ApiError ''busy''), Inr ''ok''], 3))"
  by (simp add: translateWithRetry_def maxAttempts_def testConfig_def logged_def keepLog_def
      failTwice_def)

lemma alwaysFail_run:
  "translateWithRetry testConfig (logged alwaysFail) (\<lambda>d. keepLog id) 0 ([], 0)
     = (Inl (ChunkFailed 1 3 (StatusFailed 500 ''xx'')),
        ([Inl (StatusFailed 500 []), Inl (StatusFailed 500 ''x''), Inl (StatusFailed 500 ''xx'')], 3))"
  by (simp add: translateWithRetry_def maxAttempts_def testConfig_def logged_def keepLog_def
      alwaysFail_def numeral_2_eq_2)

theorem translateWithRetry_attempts_witness:
  "translateWithRetry testConfig (logged failTwice) (\<lambda>d. keepLog id) 0 ([], 0)
     = (Inr ''ok'', ([Inl (ApiError ''busy''), Inl (ApiError ''busy''), Inr ''ok''], 3)) \<and>
   translateWithRetry testConfig (logged alwaysFail) (\<lambda>d. keepLog id) 0 ([], 0)
     = (Inl (ChunkFailed 1 3 (StatusFailed 500 ''xx'')),
        ([Inl (StatusFailed 500 []), Inl (StatusFailed 500 ''x''), Inl (StatusFailed 500 ''xx'')], 3)) \<and>
   maxAttempts testConfig = 3"
  using translateWithRetry_attempts [OF failTwice_run] translateWithRetry_attempts [OF alwaysFail_run]
    failTwice_run alwaysFail_run
  by simp

subsection \<open>The send loop of \<^verbatim>\<open>translateChunk\<close>\<close>

lemma statusError_loggedEnv: "statusError (loggedEnv env) status body = statusError env status body"
  by (simp add: statusError_def loggedEnv_def)

lemma unmarshalResponse_loggedEnv: "unmarshalResponse (loggedEnv env) = unmarshalResponse env"
  by (simp add: loggedEnv_def)

lemma readResponse_loggedEnv: "readResponse (loggedEnv env) resp = readResponse env resp"
  unfolding readResponse_def statusError_loggedEnv unmarshalResponse_loggedEnv ..

lemma readResponse_status: "StatusCode resp \<noteq> 200 \<Longrightarrow> isl (readResponse env resp)"
  by (auto simp: readResponse_def split: sum.splits)

text \<open>
  C5, as the program has it. With the results of \<^verbatim>\<open>client.Do\<close> logged: every send before
  the last failed to reach the service; when the last failed too, the sends are
  \<open>maxAttempts\<close> and the error is the send error; when the last send got a response, the
  function returns what it reads from that response, which is an error for every status
  other than 200. So a response with a non-success status ends the send loop: the inner
  loop retries failed sends only, and the status error goes to the caller at once.
\<close>

theorem translateChunk_sends:
  assumes "translateChunk t (loggedEnv env) chunk ([], w) = (res, (tr, w'))"
  shows "tr \<noteq> [] \<and> (\<forall>r\<in>set (butlast tr). isl r) \<and>
         (case last tr of
            Inl e \<Rightarrow> int (length tr) = maxAttempts t \<and> res = Inl (SendFailed e)
          | Inr resp \<Rightarrow> res = readResponse env resp \<and> (StatusCode resp \<noteq> 200 \<longrightarrow> isl res))"
proof -
  let ?do = "client_Do env (buildRequest t chunk)"
  have sr: "sendRequest t (loggedEnv env) (buildRequest t chunk) ([], w)
      = attemptLoop (logged ?do) (\<lambda>d. keepLog (time_Sleep env d)) (maxAttempts t) 0 (2 * Second) None ([], w)"
    by (simp add: sendRequest_def loggedEnv_def)
  obtain r lw where al:
    "attemptLoop (logged ?do) (\<lambda>d. keepLog (time_Sleep env d)) (maxAttempts t) 0 (2 * Second) None ([], w) = (r, lw)"
    by (cases "attemptLoop (logged ?do) (\<lambda>d. keepLog (time_Sleep env d)) (maxAttempts t) 0 (2 * Second) None ([], w)")
  have lw: "lw = (tr, w')" using assms al sr
    by (auto simp: translateChunk_def split: option.splits sum.splits)
  from attemptLoop_logged [OF al [unfolded lw] maxAttempts_pos] obtain new where new:
    "tr = [] @ new" "new \<noteq> []" "r = Some (last new)" "\<forall>r\<in>set (butlast new). isl r"
    "int (length new) \<le> maxAttempts t - 0" "isl (last new) \<longrightarrow> int (length new) = maxAttempts t - 0"
    by blast
  have "res = (case last tr of Inl e \<Rightarrow> Inl (SendFailed e) | Inr resp \<Rightarrow> readResponse env resp)"
    using assms al sr new(1,3) by (auto simp: translateChunk_def readResponse_loggedEnv split: sum.splits)
  then show ?thesis using new readResponse_status [of _ env] by (auto split: sum.splits)
qed

text \<open>
  The claim as the specification states it fails: with three attempts configured and a
  service that answers 503, the function sends one request, sleeps for no retry, and
  returns the status error.
\<close>

theorem translateChunk_status_counterexample:
  "translateChunk config3 (stubEnv busyService) ''Hello'' world0
     = (Inl (StatusFailed 503 ''overloaded''), \<lparr>sends = 1, slept = [], written = []\<rparr>)"
  by (simp add: translateChunk_def sendRequest_def maxAttempts_def readResponse_def
      statusError_def stubEnv_def world0_def config3_def testConfig_def busyService_def)

lemma busyService_run:
  "translateChunk config3 (loggedEnv (stubEnv busyService)) ''Hello'' ([], world0)
     = (Inl (StatusFailed 503 ''overloaded''),
        ([Inr \<lparr>StatusCode = 503, Body = Inr ''overloaded''\<rparr>],
         \<lparr>sends = 1, slept = [], written = []\<rparr>))"
  by (simp add: translateChunk_def sendRequest_def maxAttempts_def readResponse_def
      statusError_def stubEnv_def world0_def config3_def testConfig_def busyService_def
      loggedEnv_def logged_def keepLog_def)

theorem translateChunk_sends_witness:
  "translateChunk config3 (loggedEnv (stubEnv busyService)) ''Hello'' ([], world0)
     = (Inl (StatusFailed 503 ''overloaded''),
        ([Inr \<lparr>StatusCode = 503, Body = Inr ''overloaded''\<rparr>],
         \<lparr>sends = 1, slept = [], written = []\<rparr>)) \<and>
   readResponse (stubEnv busyService) \<lparr>StatusCode = 503, Body = Inr ''overloaded''\<rparr>
     = Inl (StatusFailed 503 ''overloaded'')"
  using translateChunk_sends [OF busyService_run] busyService_run by simp

section \<open>The result tag: properties\<close>

lemma cutAt_Some: "cutAt pat s = Some (b, a) \<Longrightarrow> s = b @ pat @ a"
proof (induction s arbitrary: b)
  case Nil
  then show ?case by (simp split: if_splits)
next
  case (Cons c cs)
  show ?case
  proof (cases "prefix pat (c # cs)")
    case True
    with Cons.prems have "b = []" "a = drop (length pat) (c # cs)" by auto
    moreover from True have "c # cs = pat @ drop (length pat) (c # cs)"
      by (metis append_eq_conv_conj prefixE)
    ultimately show ?thesis by simp
  next
    case False
    with Cons.prems obtain b' where "cutAt pat cs = Some (b', a)" "b = c # b'"
      by (auto split: option.splits)
    with Cons.IH show ?thesis by simp
  qed
qed

lemma cutAt_leftmost: "cutAt pat s = Some (b, a) \<Longrightarrow> s = b' @ pat @ a' \<Longrightarrow> length b \<le> length b'"
proof (induction s arbitrary: b b')
  case Nil
  then show ?case by (simp split: if_splits)
next
  case (Cons c cs)
  show ?case
  proof (cases "prefix pat (c # cs)")
    case True
    with Cons.prems(1) have "b = []" by auto
    then show ?thesis by simp
  next
    case False
    with Cons.prems(1) obtain b1 where b1: "cutAt pat cs = Some (b1, a)" "b = c # b1"
      by (auto split: option.splits)
    from False Cons.prems(2) have "b' \<noteq> []" by (cases b') (auto simp: prefix_def)
    then obtain b2 where b2: "b' = c # b2" "cs = b2 @ pat @ a'"
      using Cons.prems(2) by (cases b') auto
    from Cons.IH [OF b1(1) b2(2)] b1(2) b2(1) show ?thesis by simp
  qed
qed

lemma cutAt_None: "cutAt pat s = None \<Longrightarrow> s \<noteq> b @ pat @ a"
proof (induction s arbitrary: b)
  case Nil
  then show ?case by (simp split: if_splits)
next
  case (Cons c cs)
  have np: "\<not> prefix pat (c # cs)" using Cons.prems by (auto split: if_splits)
  then have n: "cutAt pat cs = None" using Cons.prems by (auto split: option.splits)
  show ?case
  proof
    assume e: "c # cs = b @ pat @ a"
    with np have "b \<noteq> []" by (cases b) (auto simp: prefix_def)
    then obtain b2 where "b = c # b2" "cs = b2 @ pat @ a" using e by (cases b) auto
    with Cons.IH [OF n] show False by blast
  qed
qed

lemma drop_within:
  "k \<le> length xs \<Longrightarrow> drop k (xs @ ys) = drop k xs @ ys"
  by simp

lemma cutAt_found: "s = b' @ pat @ a' \<Longrightarrow> \<exists>b a. cutAt pat s = Some (b, a)"
  using cutAt_None [of pat s b' a'] by (cases "cutAt pat s") auto

lemma extractResultTag_Inr:
  "extractResultTag input = Inr body \<longleftrightarrow>
     (\<exists>b rest a. cutAt ''<result>'' input = Some (b, rest) \<and> cutAt ''</result>'' rest = Some (body, a))"
  by (auto simp: extractResultTag_def split: option.splits)

lemma extractResultTag_cases:
  "extractResultTag input = Inl TagNotFound \<or> (\<exists>body. extractResultTag input = Inr body)"
  by (auto simp: extractResultTag_def split: option.splits)

lemma extractResultTag_sound:
  assumes "extractResultTag input = Inr body"
  shows "\<exists>pre post. tagPair input pre body post \<and>
           (\<forall>pre' body' post'. tagPair input pre' body' post' \<longrightarrow> length pre \<le> length pre') \<and>
           (\<forall>body' post'. tagPair input pre body' post' \<longrightarrow> length body \<le> length body')"
proof -
  from assms obtain b rest a where
    c1: "cutAt ''<result>'' input = Some (b, rest)" and c2: "cutAt ''</result>'' rest = Some (body, a)"
    by (auto simp: extractResultTag_Inr)
  have i: "input = b @ ''<result>'' @ rest" using cutAt_Some [OF c1] .
  have r: "rest = body @ ''</result>'' @ a" using cutAt_Some [OF c2] .
  have p: "tagPair input b body a" unfolding tagPair_def using i r by simp
  have l: "length b \<le> length pre'" if "tagPair input pre' body' post'" for pre' body' post'
    using cutAt_leftmost [OF c1, of pre' "body' @ ''</result>'' @ post'"] that
    unfolding tagPair_def by simp
  have s: "length body \<le> length body'" if "tagPair input b body' post'" for body' post'
  proof -
    from that i have "rest = body' @ ''</result>'' @ post'" unfolding tagPair_def by simp
    then show ?thesis using cutAt_leftmost [OF c2] by blast
  qed
  from p l s show ?thesis by blast
qed

lemma extractResultTag_complete:
  assumes "tagPair input pre body post"
  shows "\<exists>body'. extractResultTag input = Inr body'"
proof -
  let ?open = "''<result>''" and ?close = "''</result>''"
  from assms have i: "input = pre @ ?open @ (body @ ?close @ post)"
    unfolding tagPair_def by simp
  from cutAt_found [OF i] obtain b rest where c1: "cutAt ?open input = Some (b, rest)" by blast
  have le: "length b \<le> length pre" using cutAt_leftmost [OF c1 i] .
  have i2: "input = b @ ?open @ rest" using cutAt_Some [OF c1] .
  let ?k = "length b + length ?open"
  have "rest = drop ?k input" by (subst i2) simp
  also have "\<dots> = drop ?k ((pre @ ?open @ body) @ ?close @ post)"
    by (subst i) simp
  also have "\<dots> = drop ?k (pre @ ?open @ body) @ ?close @ post"
    using le by (intro drop_within) simp
  finally have "\<exists>b2 a2. cutAt ?close rest = Some (b2, a2)" by (rule cutAt_found)
  with c1 show ?thesis by (auto simp: extractResultTag_Inr)
qed


lemma extractResultTag_missing:
  "(\<forall>pre body post. \<not> tagPair input pre body post) \<Longrightarrow> extractResultTag input = Inl TagNotFound"
  using extractResultTag_cases [of input] extractResultTag_sound [of input] by blast


lemma tagPair_absent:
  "(\<forall>pre body post. \<not> tagPair content pre body post) \<longleftrightarrow> extractResultTag content = Inl TagNotFound"
proof
  assume "\<forall>pre body post. \<not> tagPair content pre body post"
  then show "extractResultTag content = Inl TagNotFound" by (rule extractResultTag_missing)
next
  assume a: "extractResultTag content = Inl TagNotFound"
  show "\<forall>pre body post. \<not> tagPair content pre body post"
  proof (intro allI notI)
    fix pre body post
    assume "tagPair content pre body post"
    from extractResultTag_complete [OF this] a show False by auto
  qed
qed


text \<open>
  C6. When the response read by \<^verbatim>\<open>translateChunk\<close> is a success whose first choice has a
  content without any tag pair, the function fails with the error of the missing tag;
  the content is not returned.
\<close>

theorem translateChunk_missing_tag:
  assumes "sendRequest t env (buildRequest t chunk) w = (Some (Inr resp), w')"
    and "Body resp = Inr body" and "StatusCode resp = 200"
    and "unmarshalResponse env body = Inr response" and "Error response = None"
    and "Choices response = content # others"
    and "\<forall>pre result post. \<not> tagPair content pre result post"
  shows "translateChunk t env chunk w = (Inl TagNotFound, w')"
  using assms(1-6) extractResultTag_missing [OF assms(7)]
  by (simp add: translateChunk_def readResponse_def)

text \<open>A content with an opening tag and no closing tag.\<close>

theorem translateChunk_missing_tag_witness:
  "sendRequest config3 (stubEnv untagged) (buildRequest config3 ''Hello'') world0
     = (Some (Inr \<lparr>StatusCode = 200, Body = Inr ''Bonjour <result> le monde''\<rparr>), world0\<lparr>sends := 1\<rparr>) \<and>
   (\<forall>pre result post. \<not> tagPair ''Bonjour <result> le monde'' pre result post) \<and>
   translateChunk config3 (stubEnv untagged) ''Hello'' world0 = (Inl TagNotFound, world0\<lparr>sends := 1\<rparr>)"
proof -
  let ?resp = "\<lparr>StatusCode = 200, Body = Inr ''Bonjour <result> le monde''\<rparr>"
  have s: "sendRequest config3 (stubEnv untagged) (buildRequest config3 ''Hello'') world0
     = (Some (Inr ?resp), world0\<lparr>sends := 1\<rparr>)"
    by (simp add: sendRequest_def maxAttempts_def stubEnv_def world0_def config3_def testConfig_def untagged_def)
  have u: "unmarshalResponse (stubEnv untagged) ''Bonjour <result> le monde''
             = Inr \<lparr>Choices = [''Bonjour <result> le monde''], Error = None\<rparr>"
    by (simp add: stubEnv_def)
  have n: "\<forall>pre result post. \<not> tagPair ''Bonjour <result> le monde'' pre result post"
    unfolding tagPair_absent by (simp add: extractResultTag_def)
  from translateChunk_missing_tag [OF s _ _ u _ _ n] s n show ?thesis by simp
qed



section \<open>The pipeline: properties\<close>








end
